theory Spec2Isabelle
  imports
    Main
    "HOL-Library.Char_ord"
    "HOL-Library.List_Lexorder"
    "HOL-Library.Product_Lexorder"
    "HOL-Library.Sublist"
    "HOL-Library.Multiset"
    "HOL-Library.Mapping"
    "HOL-Library.AList_Mapping"
begin

section \<open>Folder datasets of paddle.vision (python/paddle/vision/datasets/folder.py)\<close>

text \<open>
  The theory embeds \<^verbatim>\<open>has_valid_extension\<close>, \<^verbatim>\<open>make_dataset\<close>, \<^verbatim>\<open>DatasetFolder\<close> and
  \<^verbatim>\<open>ImageFolder\<close>. A Python \<^verbatim>\<open>str\<close> is the list of the bytes of its UTF-8 encoding:
  comparing the bytes lexicographically compares the code points, as Python does, and one
  string is a suffix of another exactly when its encoding is. Sequences are compared
  lexicographically with a proper prefix smaller, and tuples componentwise from the left.
  \<^verbatim>\<open>str.lower\<close> follows the case tables of Unicode, which \<^verbatim>\<open>folder.py\<close> does not
  contain: it is a component of the environment, and nothing is assumed about it.
\<close>

subsection \<open>Errors\<close>

datatype error =
    FileNotFoundError
  | NotADirectoryError
  | RuntimeError string
  | TypeError
  | KeyError
  | IndexError
  | OtherError string

subsection \<open>Strings and paths\<close>

text \<open>\<^verbatim>\<open>s.endswith(e)\<close> for one suffix \<open>e\<close>.\<close>

definition endswith1 :: "string \<Rightarrow> string \<Rightarrow> bool" where
  "endswith1 s e = (length e \<le> length s \<and> drop (length s - length e) s = e)"

text \<open>\<^verbatim>\<open>s.endswith(es)\<close> for a tuple of suffixes: true when one of them is a suffix.\<close>

definition endswith :: "string \<Rightarrow> string list \<Rightarrow> bool" where
  "endswith s es = list_ex (endswith1 s) es"

definition IMG_EXTENSIONS :: "string list" where
  "IMG_EXTENSIONS =
     [''.jpg'', ''.jpeg'', ''.png'', ''.ppm'', ''.bmp'', ''.pgm'', ''.tif'', ''.tiff'', ''.webp'']"

text \<open>\<^verbatim>\<open>os.path.join(a, b)\<close> of posixpath, for two components.\<close>

definition join :: "string \<Rightarrow> string \<Rightarrow> string" where
  "join a b =
     (if b \<noteq> [] \<and> hd b = CHR ''/'' then b
      else if a = [] \<or> last a = CHR ''/'' then a @ b
      else a @ ''/'' @ b)"

text \<open>\<^verbatim>\<open>sep.join(xs)\<close>.\<close>

fun str_join :: "string \<Rightarrow> string list \<Rightarrow> string" where
  "str_join sep [] = []"
| "str_join sep [x] = x"
| "str_join sep (x # y # ys) = x @ sep @ str_join sep (y # ys)"

subsection \<open>The file system\<close>

text \<open>
  What a path resolves to, links followed: a directory with its entries in the order in
  which the operating system lists them, or something that is not a directory.
\<close>

datatype node = File | Dir "(string \<times> node) list"

fun is_dir :: "node \<Rightarrow> bool" where
  "is_dir (Dir es) = True"
| "is_dir File = False"

text \<open>
  The environment of a run: \<open>lookup p\<close> is the tree found at path \<open>p\<close> (\<open>None\<close> when
  nothing is there), \<open>expanduser\<close> is \<^verbatim>\<open>os.path.expanduser\<close>, \<open>imread\<close> is
  \<^verbatim>\<open>cv2.imread\<close> and \<open>str_lower\<close> is \<^verbatim>\<open>str.lower\<close>.
\<close>

record 's env =
  lookup :: "string \<Rightarrow> node option"
  expanduser :: "string \<Rightarrow> string"
  imread :: "string \<Rightarrow> 's"
  str_lower :: "string \<Rightarrow> string"

definition has_valid_extension :: "'s env \<Rightarrow> string \<Rightarrow> string list \<Rightarrow> bool" where
  "has_valid_extension E filename extensions = endswith (str_lower E filename) extensions"

definition isdir :: "'s env \<Rightarrow> string \<Rightarrow> bool" where
  "isdir E p = (case lookup E p of Some n \<Rightarrow> is_dir n | None \<Rightarrow> False)"

type_synonym walk_entry = "string \<times> string list \<times> string list"

definition dirnames :: "(string \<times> node) list \<Rightarrow> string list" where
  "dirnames es = map fst (filter (\<lambda>e. is_dir (snd e)) es)"

definition nondirnames :: "(string \<times> node) list \<Rightarrow> string list" where
  "nondirnames es = map fst (filter (\<lambda>e. \<not> is_dir (snd e)) es)"

text \<open>
  \<^verbatim>\<open>os.walk(top, followlinks=True)\<close>, top-down: the triple of \<open>top\<close> first, then the walk of
  each subdirectory in listing order. A \<open>top\<close> that cannot be listed yields nothing.
\<close>

fun walk_tree :: "string \<Rightarrow> node \<Rightarrow> walk_entry list"
  and walk_subdirs :: "string \<Rightarrow> (string \<times> node) list \<Rightarrow> walk_entry list" where
  "walk_tree tp File = []"
| "walk_tree tp (Dir es) = (tp, dirnames es, nondirnames es) # walk_subdirs tp es"
| "walk_subdirs tp [] = []"
| "walk_subdirs tp ((name, n) # es) =
     (if is_dir n then walk_tree (join tp name) n else []) @ walk_subdirs tp es"

definition walk :: "'s env \<Rightarrow> string \<Rightarrow> walk_entry list" where
  "walk E tp = (case lookup E tp of Some n \<Rightarrow> walk_tree tp n | None \<Rightarrow> [])"

subsection \<open>Scanning\<close>

text \<open>Calling the validity predicate; calling \<^verbatim>\<open>None\<close> raises \<^verbatim>\<open>TypeError\<close>.\<close>

definition call_valid :: "(string \<Rightarrow> bool) option \<Rightarrow> string \<Rightarrow> error + bool" where
  "call_valid is_valid_file x =
     (case is_valid_file of None \<Rightarrow> Inl TypeError | Some f \<Rightarrow> Inr (f x))"

text \<open>The loop over the (already sorted) file names of one directory.\<close>

fun scan_fnames :: "(string \<Rightarrow> bool) option \<Rightarrow> string \<Rightarrow> string list \<Rightarrow> error + string list" where
  "scan_fnames is_valid_file root [] = Inr []"
| "scan_fnames is_valid_file root (fname # fnames) =
     (let path = join root fname in
      case call_valid is_valid_file path of
        Inl e \<Rightarrow> Inl e
      | Inr ok \<Rightarrow>
          (case scan_fnames is_valid_file root fnames of
             Inl e \<Rightarrow> Inl e
           | Inr rest \<Rightarrow> Inr (if ok then path # rest else rest)))"

text \<open>The loop over the (already sorted) triples of a walk.\<close>

fun scan_walk :: "(string \<Rightarrow> bool) option \<Rightarrow> walk_entry list \<Rightarrow> error + string list" where
  "scan_walk is_valid_file [] = Inr []"
| "scan_walk is_valid_file ((root, ds, fnames) # ws) =
     (case scan_fnames is_valid_file root (sort fnames) of
        Inl e \<Rightarrow> Inl e
      | Inr found \<Rightarrow>
          (case scan_walk is_valid_file ws of
             Inl e \<Rightarrow> Inl e
           | Inr rest \<Rightarrow> Inr (found @ rest)))"

text \<open>
  The rebinding at the head of \<^verbatim>\<open>make_dataset\<close> and of \<^verbatim>\<open>ImageFolder.__init__\<close>:
  \<^verbatim>\<open>if extensions is not None: def is_valid_file(x): ...\<close>.
\<close>

definition rebind_valid ::
  "'s env \<Rightarrow> string list option \<Rightarrow> (string \<Rightarrow> bool) option \<Rightarrow> (string \<Rightarrow> bool) option" where
  "rebind_valid E extensions is_valid_file =
     (case extensions of
        Some exts \<Rightarrow> Some (\<lambda>x. has_valid_extension E x exts)
      | None \<Rightarrow> is_valid_file)"

text \<open>The loop of \<^verbatim>\<open>make_dataset\<close> over the sorted keys of \<^verbatim>\<open>class_to_idx\<close>.\<close>

fun scan_targets ::
  "'s env \<Rightarrow> string \<Rightarrow> (string, nat) mapping \<Rightarrow> (string \<Rightarrow> bool) option \<Rightarrow> string list
     \<Rightarrow> error + (string \<times> nat) list" where
  "scan_targets E dir class_to_idx is_valid_file [] = Inr []"
| "scan_targets E dir class_to_idx is_valid_file (target # targets) =
     (let d = join dir target in
      if \<not> isdir E d then scan_targets E dir class_to_idx is_valid_file targets
      else
        case scan_walk is_valid_file (sort (walk E d)) of
          Inl e \<Rightarrow> Inl e
        | Inr found \<Rightarrow>
            (case (if found = [] then Inr []
                   else case Mapping.lookup class_to_idx target of
                          None \<Rightarrow> Inl KeyError
                        | Some idx \<Rightarrow> Inr (map (\<lambda>path. (path, idx)) found)) of
               Inl e \<Rightarrow> Inl e
             | Inr items \<Rightarrow>
                 (case scan_targets E dir class_to_idx is_valid_file targets of
                    Inl e \<Rightarrow> Inl e
                  | Inr rest \<Rightarrow> Inr (items @ rest))))"

definition make_dataset ::
  "'s env \<Rightarrow> string \<Rightarrow> (string, nat) mapping \<Rightarrow> string list option \<Rightarrow> (string \<Rightarrow> bool) option
     \<Rightarrow> error + (string \<times> nat) list" where
  "make_dataset E dir class_to_idx extensions is_valid_file =
     scan_targets E (expanduser E dir) class_to_idx
       (rebind_valid E extensions is_valid_file) (Mapping.ordered_keys class_to_idx)"

subsection \<open>Python list indexing\<close>

text \<open>\<^verbatim>\<open>xs[i]\<close> for an integer \<open>i\<close>: a negative index counts from the end.\<close>

definition list_getitem :: "'a list \<Rightarrow> int \<Rightarrow> error + 'a" where
  "list_getitem xs i =
     (let n = int (length xs);
          j = (if i < 0 then i + n else i)
      in if 0 \<le> j \<and> j < n then Inr (xs ! nat j) else Inl IndexError)"

subsection \<open>DatasetFolder\<close>

record 's DatasetFolder =
  root :: string
  transform :: "('s \<Rightarrow> error + 's) option"
  loader :: "string \<Rightarrow> error + 's"
  extensions :: "string list"
  classes :: "string list"
  class_to_idx :: "(string, nat) mapping"
  samples :: "(string \<times> nat) list"
  targets :: "nat list"

definition cv2_loader :: "'s env \<Rightarrow> string \<Rightarrow> error + 's" where
  "cv2_loader E path = Inr (imread E path)"

text \<open>The message of the \<^verbatim>\<open>RuntimeError\<close> raised after an empty scan.\<close>

definition found_0_files :: "string \<Rightarrow> string list \<Rightarrow> string" where
  "found_0_files r exts =
     ''Found 0 files in subfolders of: '' @ r @ [CHR 0x0A] @
     ''Supported extensions are: '' @ str_join '','' exts"

text \<open>
  \<^verbatim>\<open>{classes[i]: i for i in range(len(classes))}\<close>: a later entry for the same key
  replaces the earlier one.
\<close>

definition index_classes :: "string list \<Rightarrow> (string, nat) mapping" where
  "index_classes cs =
     foldl (\<lambda>m i. Mapping.update (cs ! i) i m) Mapping.empty [0..<length cs]"

text \<open>
  \<^verbatim>\<open>_find_classes\<close>: \<^verbatim>\<open>os.scandir(dir)\<close> raises when \<open>dir\<close> is missing or is not a
  directory.
\<close>

definition find_classes :: "'s env \<Rightarrow> string \<Rightarrow> error + (string list \<times> (string, nat) mapping)" where
  "find_classes E dir =
     (case lookup E dir of
        None \<Rightarrow> Inl FileNotFoundError
      | Some File \<Rightarrow> Inl NotADirectoryError
      | Some (Dir es) \<Rightarrow>
          (let classes = sort (dirnames es)
           in Inr (classes, index_classes classes)))"

definition DatasetFolder_init ::
  "'s env \<Rightarrow> string \<Rightarrow> (string \<Rightarrow> error + 's) option \<Rightarrow> string list option
     \<Rightarrow> ('s \<Rightarrow> error + 's) option \<Rightarrow> (string \<Rightarrow> bool) option \<Rightarrow> error + 's DatasetFolder" where
  "DatasetFolder_init E root' loader' extensions' transform' is_valid_file =
     (let exts = (case extensions' of None \<Rightarrow> IMG_EXTENSIONS | Some x \<Rightarrow> x) in
      case find_classes E root' of
        Inl e \<Rightarrow> Inl e
      | Inr (classes', class_to_idx') \<Rightarrow>
          (case make_dataset E root' class_to_idx' (Some exts) is_valid_file of
             Inl e \<Rightarrow> Inl e
           | Inr samples' \<Rightarrow>
               if length samples' = 0 then Inl (RuntimeError (found_0_files root' exts))
               else Inr \<lparr>
                 root = root',
                 transform = transform',
                 loader = (case loader' of None \<Rightarrow> cv2_loader E | Some l \<Rightarrow> l),
                 extensions = exts,
                 classes = classes',
                 class_to_idx = class_to_idx',
                 samples = samples',
                 targets = map snd samples' \<rparr>))"

definition DatasetFolder_getitem :: "'s DatasetFolder \<Rightarrow> int \<Rightarrow> error + ('s \<times> nat)" where
  "DatasetFolder_getitem self index =
     (case list_getitem (samples self) index of
        Inl e \<Rightarrow> Inl e
      | Inr (path, target) \<Rightarrow>
          (case loader self path of
             Inl e \<Rightarrow> Inl e
           | Inr sample \<Rightarrow>
               (case transform self of
                  None \<Rightarrow> Inr (sample, target)
                | Some t \<Rightarrow>
                    (case t sample of
                       Inl e \<Rightarrow> Inl e
                     | Inr sample' \<Rightarrow> Inr (sample', target)))))"

definition DatasetFolder_len :: "'s DatasetFolder \<Rightarrow> nat" where
  "DatasetFolder_len self = length (samples self)"

subsection \<open>ImageFolder\<close>

record 's ImageFolder =
  img_root :: string
  img_loader :: "string \<Rightarrow> error + 's"
  img_extensions :: "string list"
  img_samples :: "string list"
  img_transform :: "('s \<Rightarrow> error + 's) option"

definition ImageFolder_init ::
  "'s env \<Rightarrow> string \<Rightarrow> (string \<Rightarrow> error + 's) option \<Rightarrow> string list option
     \<Rightarrow> ('s \<Rightarrow> error + 's) option \<Rightarrow> (string \<Rightarrow> bool) option \<Rightarrow> error + 's ImageFolder" where
  "ImageFolder_init E root' loader' extensions' transform' is_valid_file =
     (let exts = (case extensions' of None \<Rightarrow> IMG_EXTENSIONS | Some x \<Rightarrow> x);
          path = expanduser E root';
          is_valid_file' = rebind_valid E (Some exts) is_valid_file
      in case scan_walk is_valid_file' (sort (walk E path)) of
           Inl e \<Rightarrow> Inl e
         | Inr samples' \<Rightarrow>
             if length samples' = 0 then Inl (RuntimeError (found_0_files root' exts))
             else Inr \<lparr>
               img_root = root',
               img_loader = (case loader' of None \<Rightarrow> cv2_loader E | Some l \<Rightarrow> l),
               img_extensions = exts,
               img_samples = samples',
               img_transform = transform' \<rparr>)"

definition ImageFolder_getitem :: "'s ImageFolder \<Rightarrow> int \<Rightarrow> error + 's list" where
  "ImageFolder_getitem self index =
     (case list_getitem (img_samples self) index of
        Inl e \<Rightarrow> Inl e
      | Inr path \<Rightarrow>
          (case img_loader self path of
             Inl e \<Rightarrow> Inl e
           | Inr sample \<Rightarrow>
               (case img_transform self of
                  None \<Rightarrow> Inr [sample]
                | Some t \<Rightarrow>
                    (case t sample of
                       Inl e \<Rightarrow> Inl e
                     | Inr sample' \<Rightarrow> Inr [sample']))))"

definition ImageFolder_len :: "'s ImageFolder \<Rightarrow> nat" where
  "ImageFolder_len self = length (img_samples self)"

subsection \<open>Notions used to state the properties\<close>

text \<open>An index that Python's list indexing accepts for a list of length \<open>n\<close>.\<close>

definition index_ok :: "nat \<Rightarrow> int \<Rightarrow> bool" where
  "index_ok n i = (- int n \<le> i \<and> i < int n)"

text \<open>Loading one path and applying the optional transform; both may fail.\<close>

definition load_transform ::
  "(string \<Rightarrow> error + 's) \<Rightarrow> ('s \<Rightarrow> error + 's) option \<Rightarrow> string \<Rightarrow> error + 's" where
  "load_transform l t path =
     (case l path of
        Inl e \<Rightarrow> Inl e
      | Inr s \<Rightarrow> (case t of None \<Rightarrow> Inr s | Some f \<Rightarrow> f s))"

text \<open>The paths one triple of a walk contributes under a predicate \<open>f\<close>.\<close>

definition found_in :: "(string \<Rightarrow> bool) \<Rightarrow> walk_entry \<Rightarrow> string list" where
  "found_in f w = filter f (map (join (fst w)) (sort (snd (snd w))))"

text \<open>The paths collected below \<open>d\<close> under a predicate \<open>f\<close>.\<close>

definition files_under :: "'s env \<Rightarrow> (string \<Rightarrow> bool) \<Rightarrow> string \<Rightarrow> string list" where
  "files_under E f d = concat (map (found_in f) (sort (walk E d)))"

text \<open>The labelled entries that the class directory of \<open>t\<close> contributes.\<close>

definition labelled_under ::
  "'s env \<Rightarrow> (string \<Rightarrow> bool) \<Rightarrow> string \<Rightarrow> (string, nat) mapping \<Rightarrow> string
     \<Rightarrow> (string \<times> nat) list" where
  "labelled_under E f dir c2i t =
     (if isdir E (join dir t) then
        (case Mapping.lookup c2i t of
           Some idx \<Rightarrow> map (\<lambda>path. (path, idx)) (files_under E f (join dir t))
         | None \<Rightarrow> [])
      else [])"

text \<open>The position that index \<open>i\<close> addresses in a list of length \<open>n\<close>.\<close>

definition entry_pos :: "nat \<Rightarrow> int \<Rightarrow> nat" where
  "entry_pos n i = nat (if i < 0 then int n + i else i)"

text \<open>Every path of a file that a walk from \<open>d\<close> reports, in walk order.\<close>

definition walk_paths :: "'s env \<Rightarrow> string \<Rightarrow> string list" where
  "walk_paths E d = concat (map (\<lambda>w. map (join (fst w)) (snd (snd w))) (walk E d))"


subsection \<open>A small file system\<close>

definition class_a_dir :: node where
  "class_a_dir = Dir [(''A.PNG'', File)]"

definition class_b_dir :: node where
  "class_b_dir = Dir [(''10.jpg'', File), (''1.jpg'', File), (''notes.txt'', File)]"

definition docs_dir :: node where
  "docs_dir = Dir [(''readme.txt'', File)]"

definition example_fs :: "string \<Rightarrow> node option" where
  "example_fs p =
     (if p = ''/d'' then
        Some (Dir [(''class_b'', class_b_dir), (''x.jpg'', File), (''class_a'', class_a_dir)])
      else if p = ''/d/class_a'' then Some class_a_dir
      else if p = ''/d/class_b'' then Some class_b_dir
      else if p = ''/t'' then Some (Dir [(''docs'', docs_dir)])
      else if p = ''/t/docs'' then Some docs_dir
      else None)"

text \<open>
  The names of the example are ASCII, and on ASCII \<^verbatim>\<open>str.lower\<close> changes the letters
  \<open>A\<close> to \<open>Z\<close> only.
\<close>

definition ascii_lower_char :: "char \<Rightarrow> char" where
  "ascii_lower_char c =
     (if CHR ''A'' \<le> c \<and> c \<le> CHR ''Z'' then char_of (of_char c + (32::nat)) else c)"

definition ascii_lower :: "string \<Rightarrow> string" where
  "ascii_lower s = map ascii_lower_char s"

definition example_env :: "string env" where
  "example_env =
     \<lparr> lookup = example_fs, expanduser = (\<lambda>p. p), imread = (\<lambda>p. p), str_lower = ascii_lower \<rparr>"

text \<open>The same directories, listed in another order.\<close>

definition relisted_fs :: "string \<Rightarrow> node option" where
  "relisted_fs p =
     (if p = ''/d'' then
        Some (Dir [(''class_a'', class_a_dir), (''class_b'', class_b_dir), (''x.jpg'', File)])
      else example_fs p)"

definition relisted_env :: "string env" where
  "relisted_env =
     \<lparr> lookup = relisted_fs, expanduser = (\<lambda>p. p), imread = (\<lambda>p. p), str_lower = ascii_lower \<rparr>"

definition example_ds :: "string DatasetFolder" where
  "example_ds = \<lparr>
     root = ''/d'',
     transform = None,
     loader = cv2_loader example_env,
     extensions = IMG_EXTENSIONS,
     classes = [''class_a'', ''class_b''],
     class_to_idx = index_classes [''class_a'', ''class_b''],
     samples = [(''/d/class_a/A.PNG'', 0), (''/d/class_b/1.jpg'', 1), (''/d/class_b/10.jpg'', 1)],
     targets = [0, 1, 1] \<rparr>"

definition example_img :: "string ImageFolder" where
  "example_img = \<lparr>
     img_root = ''/d'',
     img_loader = cv2_loader example_env,
     img_extensions = IMG_EXTENSIONS,
     img_samples = [''/d/x.jpg'', ''/d/class_a/A.PNG'', ''/d/class_b/1.jpg'', ''/d/class_b/10.jpg''],
     img_transform = None \<rparr>"






section \<open>Properties\<close>

subsection \<open>The extension filter\<close>




subsection \<open>What the scanning loops compute\<close>

lemma scan_fnames_Some: "scan_fnames (Some f) r fs = Inr (filter f (map (join r) fs))"
  by (induction fs) (simp_all add: call_valid_def Let_def)

lemma scan_walk_Some: "scan_walk (Some f) ws = Inr (concat (map (found_in f) ws))"
proof (induction ws)
  case Nil
  show ?case by simp
next
  case (Cons w ws)
  obtain r ds fs where w: "w = (r, ds, fs)"
    by (cases w) auto
  show ?case
    by (simp add: w Cons.IH scan_fnames_Some found_in_def)
qed

lemma lookup_of_key:
  assumes "t \<in> Mapping.keys m"
  obtains idx where "Mapping.lookup m t = Some idx"
  using assms by (auto simp: keys_dom_lookup)

lemma scan_targets_Some:
  "set ts \<subseteq> Mapping.keys c2i \<Longrightarrow>
   scan_targets E dir c2i (Some f) ts = Inr (concat (map (labelled_under E f dir c2i) ts))"
proof (induction ts)
  case Nil
  show ?case by simp
next
  case (Cons t ts)
  then have "t \<in> Mapping.keys c2i" and sub: "set ts \<subseteq> Mapping.keys c2i"
    by simp_all
  then obtain idx where idx: "Mapping.lookup c2i t = Some idx"
    by (auto elim: lookup_of_key)
  show ?case
    by (simp add: Cons.IH [OF sub] Let_def scan_walk_Some labelled_under_def files_under_def idx)
qed

lemma ordered_keys_subset: "set (Mapping.ordered_keys m) \<subseteq> Mapping.keys m"
  by (cases "finite (Mapping.keys m)") simp_all

lemma make_dataset_Some:
  "make_dataset E dir c2i (Some exts) v =
     Inr (concat (map (labelled_under E (\<lambda>x. has_valid_extension E x exts) (expanduser E dir) c2i)
                      (Mapping.ordered_keys c2i)))"
  by (simp add: make_dataset_def rebind_valid_def scan_targets_Some ordered_keys_subset)

lemma DatasetFolder_init_eq:
  "DatasetFolder_init E r l x t v =
     (case find_classes E r of
        Inl e \<Rightarrow> Inl e
      | Inr cc \<Rightarrow>
          (case make_dataset E r (snd cc)
                  (Some (case x of None \<Rightarrow> IMG_EXTENSIONS | Some y \<Rightarrow> y)) None of
             Inl e \<Rightarrow> Inl e
           | Inr ss \<Rightarrow>
               if ss = [] then
                 Inl (RuntimeError (found_0_files r (case x of None \<Rightarrow> IMG_EXTENSIONS | Some y \<Rightarrow> y)))
               else Inr \<lparr>
                 root = r,
                 transform = t,
                 loader = (case l of None \<Rightarrow> cv2_loader E | Some l' \<Rightarrow> l'),
                 extensions = (case x of None \<Rightarrow> IMG_EXTENSIONS | Some y \<Rightarrow> y),
                 classes = fst cc,
                 class_to_idx = snd cc,
                 samples = ss,
                 targets = map snd ss \<rparr>))"
  by (simp add: DatasetFolder_init_def make_dataset_Some Let_def split: sum.splits prod.splits)

lemma ImageFolder_init_eq:
  "ImageFolder_init E r l x t v =
     (let exts = (case x of None \<Rightarrow> IMG_EXTENSIONS | Some y \<Rightarrow> y);
          ss = files_under E (\<lambda>p. has_valid_extension E p exts) (expanduser E r)
      in if ss = [] then Inl (RuntimeError (found_0_files r exts))
         else Inr \<lparr>
           img_root = r,
           img_loader = (case l of None \<Rightarrow> cv2_loader E | Some l' \<Rightarrow> l'),
           img_extensions = exts,
           img_samples = ss,
           img_transform = t \<rparr>)"
  by (simp add: ImageFolder_init_def rebind_valid_def scan_walk_Some files_under_def Let_def)

subsection \<open>The custom validity predicate\<close>

text \<open>
  C1: when both an extension tuple and a custom validity predicate are given, to
  \<^verbatim>\<open>make_dataset\<close>, to \<^verbatim>\<open>DatasetFolder\<close> or to \<^verbatim>\<open>ImageFolder\<close>, the result is the one of
  the extension tuple alone, and it is built from the paths that the extension filter
  accepts: the custom predicate plays no part.
\<close>

theorem extensions_replace_is_valid_file:
  "make_dataset E dir c2i (Some exts) (Some p) = make_dataset E dir c2i (Some exts) None
   \<and> make_dataset E dir c2i (Some exts) (Some p) =
       Inr (concat (map (labelled_under E (\<lambda>x. has_valid_extension E x exts) (expanduser E dir) c2i)
                        (Mapping.ordered_keys c2i)))
   \<and> DatasetFolder_init E r l (Some exts) t (Some p) = DatasetFolder_init E r l (Some exts) t None
   \<and> DatasetFolder_init E r l (Some exts) t (Some p) =
       (case find_classes E r of
          Inl e \<Rightarrow> Inl e
        | Inr cc \<Rightarrow>
            (let ss = concat (map (labelled_under E (\<lambda>x. has_valid_extension E x exts)
                                     (expanduser E r) (snd cc))
                                  (Mapping.ordered_keys (snd cc)))
             in if ss = [] then Inl (RuntimeError (found_0_files r exts))
                else Inr \<lparr>
                  root = r,
                  transform = t,
                  loader = (case l of None \<Rightarrow> cv2_loader E | Some l' \<Rightarrow> l'),
                  extensions = exts,
                  classes = fst cc,
                  class_to_idx = snd cc,
                  samples = ss,
                  targets = map snd ss \<rparr>))
   \<and> ImageFolder_init E r l (Some exts) t (Some p) = ImageFolder_init E r l (Some exts) t None
   \<and> ImageFolder_init E r l (Some exts) t (Some p) =
       (let ss = files_under E (\<lambda>x. has_valid_extension E x exts) (expanduser E r)
        in if ss = [] then Inl (RuntimeError (found_0_files r exts))
           else Inr \<lparr>
             img_root = r,
             img_loader = (case l of None \<Rightarrow> cv2_loader E | Some l' \<Rightarrow> l'),
             img_extensions = exts,
             img_samples = ss,
             img_transform = t \<rparr>)"
proof (intro conjI)
  show "make_dataset E dir c2i (Some exts) (Some p) = make_dataset E dir c2i (Some exts) None"
    by (simp add: make_dataset_def rebind_valid_def)
  show "make_dataset E dir c2i (Some exts) (Some p) =
       Inr (concat (map (labelled_under E (\<lambda>x. has_valid_extension E x exts) (expanduser E dir) c2i)
                        (Mapping.ordered_keys c2i)))"
    by (rule make_dataset_Some)
  show "DatasetFolder_init E r l (Some exts) t (Some p)
          = DatasetFolder_init E r l (Some exts) t None"
    by (simp add: DatasetFolder_init_eq)
  show "ImageFolder_init E r l (Some exts) t (Some p)
          = ImageFolder_init E r l (Some exts) t None"
    by (simp add: ImageFolder_init_eq)
  show "DatasetFolder_init E r l (Some exts) t (Some p) =
       (case find_classes E r of
          Inl e \<Rightarrow> Inl e
        | Inr cc \<Rightarrow>
            (let ss = concat (map (labelled_under E (\<lambda>x. has_valid_extension E x exts)
                                     (expanduser E r) (snd cc))
                                  (Mapping.ordered_keys (snd cc)))
             in if ss = [] then Inl (RuntimeError (found_0_files r exts))
                else Inr \<lparr>
                  root = r,
                  transform = t,
                  loader = (case l of None \<Rightarrow> cv2_loader E | Some l' \<Rightarrow> l'),
                  extensions = exts,
                  classes = fst cc,
                  class_to_idx = snd cc,
                  samples = ss,
                  targets = map snd ss \<rparr>))"
    by (simp add: DatasetFolder_init_eq make_dataset_Some Let_def split: sum.splits)
  show "ImageFolder_init E r l (Some exts) t (Some p) =
       (let ss = files_under E (\<lambda>x. has_valid_extension E x exts) (expanduser E r)
        in if ss = [] then Inl (RuntimeError (found_0_files r exts))
           else Inr \<lparr>
             img_root = r,
             img_loader = (case l of None \<Rightarrow> cv2_loader E | Some l' \<Rightarrow> l'),
             img_extensions = exts,
             img_samples = ss,
             img_transform = t \<rparr>)"
    by (simp add: ImageFolder_init_eq)
qed

theorem extensions_replace_is_valid_file_witness:
  "map_sum id samples
        (DatasetFolder_init example_env ''/d'' None (Some [''.jpg'']) None (Some (\<lambda>x. False)))
     = Inr [(''/d/class_b/1.jpg'', 1), (''/d/class_b/10.jpg'', 1)]
   \<and> map_sum id img_samples
        (ImageFolder_init example_env ''/d'' None (Some [''.jpg'']) None (Some (\<lambda>x. False)))
     = Inr [''/d/x.jpg'', ''/d/class_b/1.jpg'', ''/d/class_b/10.jpg'']"
proof -
  note t = extensions_replace_is_valid_file
      [of example_env "''/d''" Mapping.empty "[''.jpg'']" "\<lambda>x. False" "''/d''" None None]
  have a: "DatasetFolder_init example_env ''/d'' None (Some [''.jpg'']) None (Some (\<lambda>x. False))
     = DatasetFolder_init example_env ''/d'' None (Some [''.jpg'']) None None"
    using t by blast
  have a': "ImageFolder_init example_env ''/d'' None (Some [''.jpg'']) None (Some (\<lambda>x. False))
     = ImageFolder_init example_env ''/d'' None (Some [''.jpg'']) None None"
    using t by blast
  have b: "map_sum id samples
        (DatasetFolder_init example_env ''/d'' None (Some [''.jpg'']) None None)
     = Inr [(''/d/class_b/1.jpg'', 1), (''/d/class_b/10.jpg'', 1)]"
    by code_simp
  have b': "map_sum id img_samples
        (ImageFolder_init example_env ''/d'' None (Some [''.jpg'']) None None)
     = Inr [''/d/x.jpg'', ''/d/class_b/1.jpg'', ''/d/class_b/10.jpg'']"
    by code_simp
  show ?thesis
    by (simp only: a a' b b')
qed

text \<open>
  C2: the result of constructing a \<^verbatim>\<open>DatasetFolder\<close> or an \<^verbatim>\<open>ImageFolder\<close> does not depend
  on the \<^verbatim>\<open>is_valid_file\<close> argument, whether or not an extension tuple is given.
\<close>

theorem init_independent_of_is_valid_file:
  "DatasetFolder_init E r l x t v = DatasetFolder_init E r l x t v'
   \<and> ImageFolder_init E r l x t v = ImageFolder_init E r l x t v'"
  by (simp add: DatasetFolder_init_eq ImageFolder_init_eq)

theorem init_independent_of_is_valid_file_witness:
  "ImageFolder_init example_env ''/d'' None None None (Some (\<lambda>x. False))
     = ImageFolder_init example_env ''/d'' None None None None
   \<and> map_sum id img_samples
        (ImageFolder_init example_env ''/d'' None None None (Some (\<lambda>x. False)))
     = Inr [''/d/x.jpg'', ''/d/class_a/A.PNG'', ''/d/class_b/1.jpg'', ''/d/class_b/10.jpg'']"
proof -
  have a: "ImageFolder_init example_env ''/d'' None None None (Some (\<lambda>x. False))
     = ImageFolder_init example_env ''/d'' None None None None"
    using init_independent_of_is_valid_file
      [of example_env "''/d''" None None None "Some (\<lambda>x. False)" None]
    by blast
  have b: "map_sum id img_samples (ImageFolder_init example_env ''/d'' None None None None)
     = Inr [''/d/x.jpg'', ''/d/class_a/A.PNG'', ''/d/class_b/1.jpg'', ''/d/class_b/10.jpg'']"
    by code_simp
  show ?thesis
    by (simp only: a b)
qed

subsection \<open>Indexing\<close>

lemma list_getitem_ok:
  "index_ok (length xs) i \<Longrightarrow> list_getitem xs i = Inr (xs ! entry_pos (length xs) i)"
  by (auto simp: list_getitem_def index_ok_def entry_pos_def Let_def add.commute)

lemma list_getitem_bad: "\<not> index_ok (length xs) i \<Longrightarrow> list_getitem xs i = Inl IndexError"
  by (auto simp: list_getitem_def index_ok_def Let_def)

lemma entry_pos_less: "index_ok n i \<Longrightarrow> entry_pos n i < n"
  by (auto simp: index_ok_def entry_pos_def)

lemma DatasetFolder_getitem_ok:
  assumes "index_ok (length (samples ds)) i"
  shows "DatasetFolder_getitem ds i =
           map_sum id (\<lambda>s. (s, snd (samples ds ! entry_pos (length (samples ds)) i)))
             (load_transform (loader ds) (transform ds)
                (fst (samples ds ! entry_pos (length (samples ds)) i)))"
  by (simp add: DatasetFolder_getitem_def list_getitem_ok [OF assms] load_transform_def
      split: prod.splits sum.splits option.splits)

lemma ImageFolder_getitem_ok:
  assumes "index_ok (length (img_samples d)) i"
  shows "ImageFolder_getitem d i =
           map_sum id (\<lambda>s. [s])
             (load_transform (img_loader d) (img_transform d)
                (img_samples d ! entry_pos (length (img_samples d)) i))"
  by (simp add: ImageFolder_getitem_def list_getitem_ok [OF assms] load_transform_def
      split: sum.splits option.splits)

lemma DatasetFolder_getitem_bad:
  "\<not> index_ok (length (samples ds)) i \<Longrightarrow> DatasetFolder_getitem ds i = Inl IndexError"
  by (simp add: DatasetFolder_getitem_def list_getitem_bad)

lemma ImageFolder_getitem_bad:
  "\<not> index_ok (length (img_samples d)) i \<Longrightarrow> ImageFolder_getitem d i = Inl IndexError"
  by (simp add: ImageFolder_getitem_def list_getitem_bad)

lemma example_find_classes:
  "find_classes example_env ''/d''
     = Inr ([''class_a'', ''class_b''], index_classes [''class_a'', ''class_b''])"
  by code_simp

lemma example_make_dataset:
  "make_dataset example_env ''/d'' (index_classes [''class_a'', ''class_b''])
       (Some IMG_EXTENSIONS) None
     = Inr [(''/d/class_a/A.PNG'', 0), (''/d/class_b/1.jpg'', 1), (''/d/class_b/10.jpg'', 1)]"
  by code_simp

lemma example_DatasetFolder_init:
  "DatasetFolder_init example_env ''/d'' None None None None = Inr example_ds"
  by (simp add: DatasetFolder_init_eq example_find_classes example_make_dataset example_ds_def)

lemma example_files_under:
  "files_under example_env (\<lambda>p. has_valid_extension example_env p IMG_EXTENSIONS) ''/d''
     = [''/d/x.jpg'', ''/d/class_a/A.PNG'', ''/d/class_b/1.jpg'', ''/d/class_b/10.jpg'']"
  by code_simp

lemma example_expanduser: "expanduser example_env p = p"
  by (simp add: example_env_def)

lemma example_ImageFolder_init:
  "ImageFolder_init example_env ''/d'' None None None None = Inr example_img"
  by (simp add: ImageFolder_init_eq example_files_under example_expanduser example_img_def)

text \<open>
  C3 as stated fails: index \<open>-1\<close> is outside \<open>[0, length)\<close>, and \<^verbatim>\<open>get\<close> returns the last
  entry of the constructed dataset instead of failing.
\<close>

theorem getitem_negative_index_counterexample:
  "DatasetFolder_init example_env ''/d'' None None None None = Inr example_ds
   \<and> DatasetFolder_len example_ds = 3
   \<and> \<not> (0 \<le> (- 1 :: int) \<and> (- 1 :: int) < int (DatasetFolder_len example_ds))
   \<and> DatasetFolder_getitem example_ds (- 1) = Inr (''/d/class_b/10.jpg'', 1)"
proof -
  have a: "DatasetFolder_len example_ds = 3"
    by (simp add: DatasetFolder_len_def example_ds_def)
  have b: "DatasetFolder_getitem example_ds (- 1) = Inr (''/d/class_b/10.jpg'', 1)"
    by (simp add: DatasetFolder_getitem_def list_getitem_def example_ds_def cv2_loader_def
        example_env_def)
  show ?thesis
    using a b example_DatasetFolder_init by simp
qed

text \<open>
  C3, amended: \<^verbatim>\<open>get(index)\<close> of a \<^verbatim>\<open>DatasetFolder\<close> or an \<^verbatim>\<open>ImageFolder\<close> fails with
  \<^verbatim>\<open>IndexError\<close> when the index is outside \<open>[-length, length)\<close>. An index inside that range
  addresses entry \<open>index\<close>, or \<open>length + index\<close> when it is negative; there \<^verbatim>\<open>get\<close> fails
  with \<^verbatim>\<open>IndexError\<close> only when the loader or the transform does, and returns the loaded
  sample when they succeed.
\<close>

theorem getitem_IndexError_iff:
  "(DatasetFolder_getitem ds i = Inl IndexError \<longleftrightarrow>
      \<not> index_ok (length (samples ds)) i
      \<or> load_transform (loader ds) (transform ds)
            (fst (samples ds ! entry_pos (length (samples ds)) i)) = Inl IndexError)
   \<and> (\<forall>s. index_ok (length (samples ds)) i
          \<and> load_transform (loader ds) (transform ds)
               (fst (samples ds ! entry_pos (length (samples ds)) i)) = Inr s
        \<longrightarrow> DatasetFolder_getitem ds i
              = Inr (s, snd (samples ds ! entry_pos (length (samples ds)) i)))
   \<and> (ImageFolder_getitem d i = Inl IndexError \<longleftrightarrow>
      \<not> index_ok (length (img_samples d)) i
      \<or> load_transform (img_loader d) (img_transform d)
            (img_samples d ! entry_pos (length (img_samples d)) i) = Inl IndexError)
   \<and> (\<forall>s. index_ok (length (img_samples d)) i
          \<and> load_transform (img_loader d) (img_transform d)
               (img_samples d ! entry_pos (length (img_samples d)) i) = Inr s
        \<longrightarrow> ImageFolder_getitem d i = Inr [s])"
proof -
  have a: ?thesis if "index_ok (length (samples ds)) i" "index_ok (length (img_samples d)) i"
    using that
    by (auto simp: DatasetFolder_getitem_ok ImageFolder_getitem_ok map_sum_def split: sum.splits)
  have b: ?thesis if "\<not> index_ok (length (samples ds)) i" "index_ok (length (img_samples d)) i"
    using that
    by (auto simp: DatasetFolder_getitem_bad ImageFolder_getitem_ok map_sum_def split: sum.splits)
  have c: ?thesis if "index_ok (length (samples ds)) i" "\<not> index_ok (length (img_samples d)) i"
    using that
    by (auto simp: DatasetFolder_getitem_ok ImageFolder_getitem_bad map_sum_def split: sum.splits)
  have e: ?thesis if "\<not> index_ok (length (samples ds)) i" "\<not> index_ok (length (img_samples d)) i"
    using that
    by (auto simp: DatasetFolder_getitem_bad ImageFolder_getitem_bad)
  show ?thesis
    using a b c e by blast
qed

theorem getitem_IndexError_iff_witness:
  "DatasetFolder_getitem example_ds 3 = Inl IndexError
   \<and> DatasetFolder_getitem example_ds (- 4) = Inl IndexError
   \<and> ImageFolder_getitem example_img (- 4) = Inr [''/d/x.jpg'']"
proof -
  have n: "\<not> index_ok (length (samples example_ds)) 3"
    "\<not> index_ok (length (samples example_ds)) (- 4)"
    by (simp_all add: index_ok_def example_ds_def)
  have a: "DatasetFolder_getitem example_ds 3 = Inl IndexError"
    using getitem_IndexError_iff [where ds = example_ds and i = 3 and d = example_img] n by blast
  have b: "DatasetFolder_getitem example_ds (- 4) = Inl IndexError"
    using getitem_IndexError_iff [where ds = example_ds and i = "- 4" and d = example_img] n by blast
  have ok: "index_ok (length (img_samples example_img)) (- 4)"
    by (simp add: index_ok_def example_img_def)
  have l: "load_transform (img_loader example_img) (img_transform example_img)
             (img_samples example_img ! entry_pos (length (img_samples example_img)) (- 4))
           = Inr ''/d/x.jpg''"
    by (simp add: load_transform_def example_img_def entry_pos_def cv2_loader_def example_env_def)
  have c: "ImageFolder_getitem example_img (- 4) = Inr [''/d/x.jpg'']"
    using getitem_IndexError_iff [where ds = example_ds and i = "- 4" and d = example_img] ok l by blast
  show ?thesis
    using a b c by simp
qed

text \<open>
  C7: \<^verbatim>\<open>ImageFolder.get\<close> returns a list of exactly one element, the loaded and possibly
  transformed sample; \<^verbatim>\<open>DatasetFolder.get\<close> returns the pair of that sample and the label
  of the addressed entry.
\<close>

theorem getitem_shapes:
  "(\<forall>r. ImageFolder_getitem d i = Inr r \<longrightarrow>
        length r = 1
        \<and> load_transform (img_loader d) (img_transform d)
             (img_samples d ! entry_pos (length (img_samples d)) i) = Inr (hd r))
   \<and> (\<forall>r. DatasetFolder_getitem ds i = Inr r \<longrightarrow>
        snd r = snd (samples ds ! entry_pos (length (samples ds)) i)
        \<and> load_transform (loader ds) (transform ds)
             (fst (samples ds ! entry_pos (length (samples ds)) i)) = Inr (fst r))
   \<and> (index_ok (length (img_samples d)) i \<longrightarrow>
        ImageFolder_getitem d i
          = map_sum id (\<lambda>s. [s])
              (load_transform (img_loader d) (img_transform d)
                 (img_samples d ! entry_pos (length (img_samples d)) i)))
   \<and> (index_ok (length (samples ds)) i \<longrightarrow>
        DatasetFolder_getitem ds i
          = map_sum id (\<lambda>s. (s, snd (samples ds ! entry_pos (length (samples ds)) i)))
              (load_transform (loader ds) (transform ds)
                 (fst (samples ds ! entry_pos (length (samples ds)) i))))"
proof -
  have a: "length r = 1
        \<and> load_transform (img_loader d) (img_transform d)
             (img_samples d ! entry_pos (length (img_samples d)) i) = Inr (hd r)"
    if r: "ImageFolder_getitem d i = Inr r" for r
  proof -
    have ok: "index_ok (length (img_samples d)) i"
      using r ImageFolder_getitem_bad [of d i] by auto
    show ?thesis
      using r by (auto simp: ImageFolder_getitem_ok [OF ok] map_sum_def split: sum.splits)
  qed
  have b: "snd r = snd (samples ds ! entry_pos (length (samples ds)) i)
        \<and> load_transform (loader ds) (transform ds)
             (fst (samples ds ! entry_pos (length (samples ds)) i)) = Inr (fst r)"
    if r: "DatasetFolder_getitem ds i = Inr r" for r
  proof -
    have ok: "index_ok (length (samples ds)) i"
      using r DatasetFolder_getitem_bad [of ds i] by auto
    show ?thesis
      using r by (auto simp: DatasetFolder_getitem_ok [OF ok] map_sum_def split: sum.splits)
  qed
  show ?thesis
    using a b DatasetFolder_getitem_ok [of ds i] ImageFolder_getitem_ok [of d i] by blast
qed

theorem getitem_shapes_witness:
  "ImageFolder_getitem example_img 1 = Inr [''/d/class_a/A.PNG'']
   \<and> DatasetFolder_getitem example_ds 1 = Inr (''/d/class_b/1.jpg'', 1)"
proof -
  have ok: "index_ok (length (img_samples example_img)) 1"
    "index_ok (length (samples example_ds)) 1"
    by (simp_all add: index_ok_def example_img_def example_ds_def)
  have a: "ImageFolder_getitem example_img 1
          = map_sum id (\<lambda>s. [s])
              (load_transform (img_loader example_img) (img_transform example_img)
                 (img_samples example_img ! entry_pos (length (img_samples example_img)) 1))"
    using getitem_shapes [where d = example_img and i = 1 and ds = example_ds] ok by blast
  have b: "DatasetFolder_getitem example_ds 1
          = map_sum id (\<lambda>s. (s, snd (samples example_ds ! entry_pos (length (samples example_ds)) 1)))
              (load_transform (loader example_ds) (transform example_ds)
                 (fst (samples example_ds ! entry_pos (length (samples example_ds)) 1)))"
    using getitem_shapes [where d = example_img and i = 1 and ds = example_ds] ok by blast
  show ?thesis
    unfolding a b
    by (simp add: load_transform_def example_img_def example_ds_def entry_pos_def cv2_loader_def
        example_env_def)
qed

subsection \<open>Targets\<close>

text \<open>
  C8: in a constructed \<^verbatim>\<open>DatasetFolder\<close>, \<^verbatim>\<open>targets\<close> has the length of \<^verbatim>\<open>samples\<close> and
  its i-th element is the label of the i-th sample.
\<close>

theorem targets_parallel_to_samples:
  assumes "DatasetFolder_init E r l x t v = Inr ds"
  shows "length (targets ds) = length (samples ds)
         \<and> (\<forall>i < length (samples ds). targets ds ! i = snd (samples ds ! i))"
proof -
  have "targets ds = map snd (samples ds)"
    using assms
    by (auto simp: DatasetFolder_init_eq split: sum.splits if_splits)
  then show ?thesis
    by simp
qed

theorem targets_parallel_to_samples_witness:
  "DatasetFolder_init example_env ''/d'' None None None None = Inr example_ds
   \<and> length (targets example_ds) = length (samples example_ds)
   \<and> targets example_ds ! 2 = snd (samples example_ds ! 2)
   \<and> targets example_ds = [0, 1, 1]"
proof -
  have "targets example_ds = [0, 1, 1]" and "2 < length (samples example_ds)"
    by (simp_all add: example_ds_def)
  then show ?thesis
    using targets_parallel_to_samples [OF example_DatasetFolder_init] example_DatasetFolder_init
    by blast
qed

subsection \<open>Class discovery and the order of labels\<close>

lemma foldl_index_keys:
  "k \<le> length cs \<Longrightarrow>
   Mapping.keys (foldl (\<lambda>m i. Mapping.update (cs ! i) i m) Mapping.empty [0..<k]) = set (take k cs)"
  by (induction k) (simp_all add: take_Suc_conv_app_nth)

lemma foldl_index_lookup:
  "k \<le> length cs \<Longrightarrow>
   Mapping.lookup (foldl (\<lambda>m i. Mapping.update (cs ! i) i m) Mapping.empty [0..<k]) name = Some j \<Longrightarrow>
   j < k \<and> cs ! j = name"
proof (induction k arbitrary: j)
  case 0
  then show ?case by simp
next
  case (Suc k)
  show ?case
  proof (cases "cs ! k = name")
    case True
    with Suc.prems show ?thesis
      by (simp add: lookup_update')
  next
    case False
    with Suc.prems have "Mapping.lookup (foldl (\<lambda>m i. Mapping.update (cs ! i) i m) Mapping.empty [0..<k]) name = Some j"
      by (simp add: lookup_update')
    with Suc.IH [of j] Suc.prems show ?thesis
      by simp
  qed
qed

lemma foldl_index_nth:
  "distinct cs \<Longrightarrow> k \<le> length cs \<Longrightarrow> i < k \<Longrightarrow>
   Mapping.lookup (foldl (\<lambda>m i. Mapping.update (cs ! i) i m) Mapping.empty [0..<k]) (cs ! i) = Some i"
proof (induction k)
  case 0
  then show ?case by simp
next
  case (Suc k)
  show ?case
  proof (cases "i = k")
    case True
    then show ?thesis
      by (simp add: lookup_update')
  next
    case False
    with Suc.prems have ik: "i < k" and "k < length cs"
      by simp_all
    with Suc.prems have "cs ! k \<noteq> cs ! i"
      by (simp add: nth_eq_iff_index_eq)
    with Suc.IH Suc.prems ik show ?thesis
      by (simp add: lookup_update')
  qed
qed

lemma index_classes_keys: "Mapping.keys (index_classes cs) = set cs"
  by (simp add: index_classes_def foldl_index_keys)

lemma index_classes_lookup:
  "Mapping.lookup (index_classes cs) name = Some j \<Longrightarrow> j < length cs \<and> cs ! j = name"
  unfolding index_classes_def using foldl_index_lookup [of "length cs" cs name j] by simp

lemma index_classes_nth:
  "distinct cs \<Longrightarrow> i < length cs \<Longrightarrow> Mapping.lookup (index_classes cs) (cs ! i) = Some i"
  unfolding index_classes_def using foldl_index_nth [of cs "length cs" i] by simp

lemma index_classes_bij:
  assumes "distinct cs"
  shows "bij_betw (\<lambda>c. the (Mapping.lookup (index_classes cs) c)) (set cs) {0..<length cs}"
proof (rule bij_betw_byWitness [where f' = "\<lambda>i. cs ! i"])
  show "\<forall>a\<in>set cs. cs ! the (Mapping.lookup (index_classes cs) a) = a"
    using assms by (auto simp: in_set_conv_nth index_classes_nth)
  show "\<forall>a'\<in>{0..<length cs}. the (Mapping.lookup (index_classes cs) (cs ! a')) = a'"
    using assms by (simp add: index_classes_nth)
  show "(\<lambda>c. the (Mapping.lookup (index_classes cs) c)) ` set cs \<subseteq> {0..<length cs}"
    using assms by (auto simp: in_set_conv_nth index_classes_nth)
  show "(!) cs ` {0..<length cs} \<subseteq> set cs"
    by auto
qed

lemma dirnames_mset: "mset es' = mset es \<Longrightarrow> mset (dirnames es') = mset (dirnames es)"
  by (metis dirnames_def mset_filter mset_map)

lemma sort_dirnames_perm: "mset es' = mset es \<Longrightarrow> sort (dirnames es') = sort (dirnames es)"
proof (rule properties_for_sort)
  assume "mset es' = mset es"
  then show "mset (sort (dirnames es)) = mset (dirnames es')"
    using dirnames_mset [of es' es] by simp
  show "sorted (sort (dirnames es))"
    by simp
qed

lemma set_dirnames: "set (dirnames es) = {name. \<exists>n. (name, n) \<in> set es \<and> is_dir n}"
  by (auto simp: dirnames_def image_iff)

lemma distinct_dirnames: "distinct (map fst es) \<Longrightarrow> distinct (dirnames es)"
  by (simp add: dirnames_def distinct_map_filter)

text \<open>
  C5: for a root directory whose entries have distinct names, class discovery returns
  exactly the names of the entries that are directories, sorted and without repetition;
  \<^verbatim>\<open>class_to_idx\<close> has these names as its keys and maps each to its position in the
  sorted list, counted from 0, which is a bijection onto \<open>[0, N)\<close>; and any other listing
  order of the same entries gives the same result.
\<close>

theorem find_classes_sorted_dense:
  assumes "lookup E dir = Some (Dir es)" and "distinct (map fst es)"
  shows "\<exists>cs c2i.
           find_classes E dir = Inr (cs, c2i)
           \<and> set cs = {name. \<exists>n. (name, n) \<in> set es \<and> is_dir n}
           \<and> sorted cs \<and> distinct cs
           \<and> Mapping.keys c2i = set cs
           \<and> (\<forall>i < length cs. Mapping.lookup c2i (cs ! i) = Some i)
           \<and> bij_betw (\<lambda>c. the (Mapping.lookup c2i c)) (set cs) {0..<length cs}
           \<and> (\<forall>E' dir' es'. lookup (E' :: 's env) dir' = Some (Dir es') \<and> mset es' = mset es
                 \<longrightarrow> find_classes E' dir' = Inr (cs, c2i))"
proof (intro exI conjI)
  let ?cs = "sort (dirnames es)"
  have d: "distinct ?cs"
    using assms(2) by (simp add: distinct_dirnames)
  show "find_classes E dir = Inr (?cs, index_classes ?cs)"
    by (simp add: find_classes_def assms(1) Let_def)
  show "set ?cs = {name. \<exists>n. (name, n) \<in> set es \<and> is_dir n}"
    by (simp add: set_dirnames)
  show "sorted ?cs"
    by simp
  show "distinct ?cs"
    by (rule d)
  show "Mapping.keys (index_classes ?cs) = set ?cs"
    by (rule index_classes_keys)
  show "\<forall>i < length ?cs. Mapping.lookup (index_classes ?cs) (?cs ! i) = Some i"
    using d by (simp add: index_classes_nth)
  show "bij_betw (\<lambda>c. the (Mapping.lookup (index_classes ?cs) c)) (set ?cs) {0..<length ?cs}"
    by (rule index_classes_bij [OF d])
  show "\<forall>E' dir' es'. lookup (E' :: 's env) dir' = Some (Dir es') \<and> mset es' = mset es
          \<longrightarrow> find_classes E' dir' = Inr (?cs, index_classes ?cs)"
  proof (intro allI impI)
    fix E' :: "'s env" and dir' es'
    assume "lookup E' dir' = Some (Dir es') \<and> mset es' = mset es"
    then have l: "lookup E' dir' = Some (Dir es')" and s: "sort (dirnames es') = ?cs"
      by (simp_all add: sort_dirnames_perm [of es' es])
    show "find_classes E' dir' = Inr (?cs, index_classes ?cs)"
      by (simp add: find_classes_def l s Let_def)
  qed
qed

lemma find_classes_Inr:
  "find_classes E r = Inr cc \<Longrightarrow>
   \<exists>es. lookup E r = Some (Dir es)
      \<and> cc = (sort (dirnames es), index_classes (sort (dirnames es)))"
  by (auto simp: find_classes_def Let_def split: option.splits node.splits)

lemma labelled_under_None:
  "Mapping.lookup c2i k = None \<Longrightarrow> labelled_under E f dir c2i k = []"
  unfolding labelled_under_def by (simp split: if_splits)

lemma labelled_under_Some:
  "Mapping.lookup c2i k = Some idx \<Longrightarrow>
   labelled_under E f dir c2i k =
     (if isdir E (join dir k) then map (\<lambda>path. (path, idx)) (files_under E f (join dir k))
      else [])"
  unfolding labelled_under_def by simp

lemma snd_labelled_under:
  assumes "y \<in> snd ` set (labelled_under E f dir c2i k)"
  shows "Mapping.lookup c2i k = Some y"
proof (cases "Mapping.lookup c2i k")
  case None
  with assms show ?thesis
    using labelled_under_None [of c2i k E f dir] by simp
next
  case (Some idx)
  with assms have "y = idx"
    using labelled_under_Some [OF Some, of E f dir] by (auto split: if_splits)
  with Some show ?thesis
    by simp
qed

lemma sorted_snd_labelled_under: "sorted (map snd (labelled_under E f dir c2i k))"
  by (simp add: labelled_under_def comp_def map_replicate_const split: option.splits)

lemma sorted_labels_of_keys:
  assumes "sorted_wrt (\<lambda>a b. \<forall>i j. Mapping.lookup c2i a = Some i \<longrightarrow>
                               Mapping.lookup c2i b = Some j \<longrightarrow> i \<le> j) ks"
  shows "sorted (map snd (concat (map (labelled_under E f dir c2i) ks)))"
  using assms
proof (induction ks)
  case Nil
  show ?case by simp
next
  case (Cons k ks)
  have ih: "sorted (map snd (concat (map (labelled_under E f dir c2i) ks)))"
    using Cons by simp
  have le: "x \<le> y"
    if x: "x \<in> snd ` set (labelled_under E f dir c2i k)"
      and y: "y \<in> snd ` set (concat (map (labelled_under E f dir c2i) ks))" for x y
  proof -
    from y obtain k' where k': "k' \<in> set ks"
      and yk: "y \<in> snd ` set (labelled_under E f dir c2i k')"
      by auto
    have "Mapping.lookup c2i k = Some x" "Mapping.lookup c2i k' = Some y"
      using x yk by (simp_all add: snd_labelled_under)
    moreover have "\<forall>i j. Mapping.lookup c2i k = Some i \<longrightarrow> Mapping.lookup c2i k' = Some j \<longrightarrow> i \<le> j"
      using Cons.prems k' by simp
    ultimately show ?thesis
      by blast
  qed
  have "sorted (map snd (labelled_under E f dir c2i k)
                 @ map snd (concat (map (labelled_under E f dir c2i) ks)))"
    unfolding sorted_append using ih le sorted_snd_labelled_under [of E f dir c2i k]
    by (simp only: set_map) blast
  then show ?case
    by simp
qed

lemma index_classes_monotone:
  assumes "sorted cs"
  shows "sorted_wrt (\<lambda>a b. \<forall>i j. Mapping.lookup (index_classes cs) a = Some i \<longrightarrow>
                               Mapping.lookup (index_classes cs) b = Some j \<longrightarrow> i \<le> j)
           (Mapping.ordered_keys (index_classes cs))"
proof -
  have strict: "sorted_wrt (<) (Mapping.ordered_keys (index_classes cs))"
    by (simp add: strict_sorted_iff)
  have "i \<le> j"
    if "a < b" "Mapping.lookup (index_classes cs) a = Some i"
      "Mapping.lookup (index_classes cs) b = Some j" for a b i j
  proof (rule ccontr)
    assume "\<not> i \<le> j"
    then have "j \<le> i" by simp
    moreover have "i < length cs" "cs ! i = a" "cs ! j = b"
      using that index_classes_lookup by blast+
    ultimately have "b \<le> a"
      using assms sorted_nth_mono by blast
    with that(1) show False by simp
  qed
  then show ?thesis
    by (intro sorted_wrt_mono_rel [OF _ strict]) blast
qed

text \<open>
  C10: in every constructed \<^verbatim>\<open>DatasetFolder\<close> the labels of \<^verbatim>\<open>samples\<close>, and so
  \<^verbatim>\<open>targets\<close>, are non-decreasing.
\<close>

theorem labels_nondecreasing:
  assumes "DatasetFolder_init E r l x t v = Inr ds"
  shows "sorted (map snd (samples ds)) \<and> sorted (targets ds)"
proof -
  obtain cc ss where cc: "find_classes E r = Inr cc"
    and ss: "make_dataset E r (snd cc)
               (Some (case x of None \<Rightarrow> IMG_EXTENSIONS | Some y \<Rightarrow> y)) None = Inr ss"
    and ds: "samples ds = ss" "targets ds = map snd ss"
    using assms by (auto simp: DatasetFolder_init_eq split: sum.splits if_splits)
  obtain es where c2i: "snd cc = index_classes (sort (dirnames es))"
    using find_classes_Inr [OF cc] by auto
  have "ss = concat (map (labelled_under E
                 (\<lambda>p. has_valid_extension E p (case x of None \<Rightarrow> IMG_EXTENSIONS | Some y \<Rightarrow> y))
                 (expanduser E r) (index_classes (sort (dirnames es))))
               (Mapping.ordered_keys (index_classes (sort (dirnames es)))))"
    using ss unfolding make_dataset_Some c2i by simp
  moreover have "sorted (sort (dirnames es))"
    by simp
  ultimately have "sorted (map snd ss)"
    by (simp only: sorted_labels_of_keys index_classes_monotone)
  then show ?thesis
    by (simp add: ds)
qed


theorem find_classes_sorted_dense_witness:
  "find_classes example_env ''/d''
     = Inr ([''class_a'', ''class_b''], index_classes [''class_a'', ''class_b''])
   \<and> Mapping.lookup (index_classes [''class_a'', ''class_b'']) ''class_a'' = Some 0
   \<and> Mapping.lookup (index_classes [''class_a'', ''class_b'']) ''class_b'' = Some 1
   \<and> find_classes relisted_env ''/d''
     = Inr ([''class_a'', ''class_b''], index_classes [''class_a'', ''class_b''])"
proof -
  let ?es = "[(''class_b'', class_b_dir), (''x.jpg'', File), (''class_a'', class_a_dir)]"
  let ?es' = "[(''class_a'', class_a_dir), (''class_b'', class_b_dir), (''x.jpg'', File)]"
  have l: "lookup example_env ''/d'' = Some (Dir ?es)"
    by (simp add: example_env_def example_fs_def)
  have d: "distinct (map fst ?es)"
    by simp
  have l': "lookup relisted_env ''/d'' = Some (Dir ?es')"
    by (simp add: relisted_env_def relisted_fs_def)
  have m: "mset ?es' = mset ?es"
    by simp
  obtain cs c2i where f: "find_classes example_env ''/d'' = Inr (cs, c2i)"
    and i: "\<forall>i < length cs. Mapping.lookup c2i (cs ! i) = Some i"
    and p: "\<forall>E' dir' es'. lookup (E' :: string env) dir' = Some (Dir es') \<and> mset es' = mset ?es
                 \<longrightarrow> find_classes E' dir' = Inr (cs, c2i)"
    using find_classes_sorted_dense [OF l d] by (elim exE conjE) (rule that)
  have cs: "cs = [''class_a'', ''class_b'']" and c2i: "c2i = index_classes [''class_a'', ''class_b'']"
    using f unfolding example_find_classes by blast+
  have a: "Mapping.lookup c2i (cs ! 0) = Some 0"
    by (rule i [rule_format]) (simp add: cs)
  have b: "Mapping.lookup c2i (cs ! 1) = Some 1"
    by (rule i [rule_format]) (simp add: cs)
  have a': "Mapping.lookup (index_classes [''class_a'', ''class_b'']) ''class_a'' = Some 0"
    using a unfolding cs c2i by simp
  have b': "Mapping.lookup (index_classes [''class_a'', ''class_b'']) ''class_b'' = Some 1"
    using b unfolding cs c2i by simp
  have r: "find_classes relisted_env ''/d'' = Inr (cs, c2i)"
    by (rule p [rule_format, OF conjI [OF l' m]])
  show ?thesis
    using f [unfolded cs c2i] a' b' r [unfolded cs c2i] by blast
qed

theorem labels_nondecreasing_witness:
  "DatasetFolder_init example_env ''/d'' None None None None = Inr example_ds
   \<and> sorted (map snd (samples example_ds)) \<and> sorted (targets example_ds)
   \<and> targets example_ds = [0, 1, 1]"
proof -
  have "targets example_ds = [0, 1, 1]"
    by (simp add: example_ds_def)
  then show ?thesis
    using labels_nondecreasing [OF example_DatasetFolder_init] example_DatasetFolder_init
    by blast
qed

subsection \<open>The empty scan\<close>

lemma set_files_under: "set (files_under E f d) = {p \<in> set (walk_paths E d). f p}"
  by (auto simp: files_under_def found_in_def walk_paths_def)

lemma files_under_empty_iff:
  "files_under E f d = [] \<longleftrightarrow> (\<forall>p \<in> set (walk_paths E d). \<not> f p)"
proof -
  have "files_under E f d = [] \<longleftrightarrow> set (files_under E f d) = {}"
    by simp
  also have "\<dots> \<longleftrightarrow> (\<forall>p \<in> set (walk_paths E d). \<not> f p)"
    unfolding set_files_under by blast
  finally show ?thesis .
qed

lemma walk_paths_not_isdir: "\<not> isdir E d \<Longrightarrow> walk_paths E d = []"
proof (cases "lookup E d")
  case None
  then show ?thesis
    by (simp add: walk_paths_def walk_def)
next
  case (Some n)
  assume "\<not> isdir E d"
  with Some have "n = File"
    by (cases n) (simp_all add: isdir_def)
  with Some show ?thesis
    by (simp add: walk_paths_def walk_def)
qed

lemma labelled_under_empty_iff:
  assumes "k \<in> Mapping.keys c2i"
  shows "labelled_under E f dir c2i k = [] \<longleftrightarrow> (\<forall>p \<in> set (walk_paths E (join dir k)). \<not> f p)"
proof -
  obtain idx where idx: "Mapping.lookup c2i k = Some idx"
    using assms by (rule lookup_of_key)
  show ?thesis
  proof (cases "isdir E (join dir k)")
    case True
    then show ?thesis
      by (simp add: labelled_under_Some [OF idx] files_under_empty_iff)
  next
    case False
    then have "set (walk_paths E (join dir k)) = {}"
      by (simp add: walk_paths_not_isdir)
    with False show ?thesis
      by (simp add: labelled_under_Some [OF idx])
  qed
qed

lemma set_ordered_keys_index_classes:
  "set (Mapping.ordered_keys (index_classes cs)) = set cs"
  by (simp add: index_classes_keys)

lemma make_dataset_empty_iff:
  "concat (map (labelled_under E f dir (index_classes cs))
               (Mapping.ordered_keys (index_classes cs))) = []
   \<longleftrightarrow> (\<forall>c \<in> set cs. \<forall>p \<in> set (walk_paths E (join dir c)). \<not> f p)"
proof -
  have "concat (map (labelled_under E f dir (index_classes cs))
               (Mapping.ordered_keys (index_classes cs))) = []
        \<longleftrightarrow> (\<forall>c \<in> set cs. labelled_under E f dir (index_classes cs) c = [])"
    by (simp add: set_ordered_keys_index_classes)
  also have "\<dots> \<longleftrightarrow> (\<forall>c \<in> set cs. \<forall>p \<in> set (walk_paths E (join dir c)). \<not> f p)"
    using labelled_under_empty_iff [of _ "index_classes cs" E f dir]
    by (simp add: index_classes_keys)
  finally show ?thesis .
qed


text \<open>
  C4: when no file that the scan reaches passes the extension filter, construction fails
  with the \<^verbatim>\<open>RuntimeError\<close> whose message names the root as it was given and the
  extensions in force; when some file passes, construction succeeds. For
  \<^verbatim>\<open>ImageFolder\<close> the scan is the walk from the expanded root; for \<^verbatim>\<open>DatasetFolder\<close>
  it is, once the classes are discovered, the walks from the class directories; a root
  that does not exist makes the class discovery of \<^verbatim>\<open>DatasetFolder\<close> fail before any scan.
\<close>

theorem found_0_files_iff:
  assumes "exts = (case x of None \<Rightarrow> IMG_EXTENSIONS | Some y \<Rightarrow> y)"
    and "msg = ''Found 0 files in subfolders of: '' @ r @ [CHR 0x0A] @
               ''Supported extensions are: '' @ str_join '','' exts"
  shows
    "((\<forall>p \<in> set (walk_paths E (expanduser E r)). \<not> has_valid_extension E p exts)
        \<longrightarrow> ImageFolder_init E r l x t v = Inl (RuntimeError msg))
     \<and> ((\<exists>p \<in> set (walk_paths E (expanduser E r)). has_valid_extension E p exts)
        \<longrightarrow> (\<exists>d. ImageFolder_init E r l x t v = Inr d \<and> img_samples d \<noteq> []))
     \<and> (lookup E r = None \<longrightarrow> DatasetFolder_init E r l x t v = Inl FileNotFoundError)
     \<and> (\<forall>cs c2i. find_classes E r = Inr (cs, c2i) \<longrightarrow>
          ((\<forall>c \<in> set cs. \<forall>p \<in> set (walk_paths E (join (expanduser E r) c)).
               \<not> has_valid_extension E p exts)
             \<longrightarrow> DatasetFolder_init E r l x t v = Inl (RuntimeError msg))
          \<and> ((\<exists>c \<in> set cs. \<exists>p \<in> set (walk_paths E (join (expanduser E r) c)).
               has_valid_extension E p exts)
             \<longrightarrow> (\<exists>ds. DatasetFolder_init E r l x t v = Inr ds \<and> samples ds \<noteq> [])))"
proof (intro conjI allI impI)
  let ?f = "\<lambda>p. has_valid_extension E p exts"
  have msg: "msg = found_0_files r exts"
    by (simp add: assms(2) found_0_files_def)
  show "ImageFolder_init E r l x t v = Inl (RuntimeError msg)"
    if "\<forall>p \<in> set (walk_paths E (expanduser E r)). \<not> has_valid_extension E p exts"
  proof -
    have "files_under E ?f (expanduser E r) = []"
      using that by (simp add: files_under_empty_iff)
    then show ?thesis
      by (simp add: ImageFolder_init_eq msg flip: assms(1))
  qed
  show "\<exists>d. ImageFolder_init E r l x t v = Inr d \<and> img_samples d \<noteq> []"
    if "\<exists>p \<in> set (walk_paths E (expanduser E r)). has_valid_extension E p exts"
  proof -
    have "files_under E ?f (expanduser E r) \<noteq> []"
      using that by (simp add: files_under_empty_iff)
    then show ?thesis
      by (simp add: ImageFolder_init_eq Let_def flip: assms(1))
  qed
  show "DatasetFolder_init E r l x t v = Inl FileNotFoundError" if "lookup E r = None"
    using that by (simp add: DatasetFolder_init_eq find_classes_def)
  fix cs c2i
  assume fc: "find_classes E r = Inr (cs, c2i)"
  then obtain es where "(cs, c2i) = (sort (dirnames es), index_classes (sort (dirnames es)))"
    using find_classes_Inr [OF fc] by blast
  then have c2i: "c2i = index_classes cs"
    by simp
  have md: "make_dataset E r c2i (Some exts) None =
              Inr (concat (map (labelled_under E ?f (expanduser E r) (index_classes cs))
                               (Mapping.ordered_keys (index_classes cs))))"
    by (simp add: make_dataset_Some c2i)
  show "DatasetFolder_init E r l x t v = Inl (RuntimeError msg)"
    if "\<forall>c \<in> set cs. \<forall>p \<in> set (walk_paths E (join (expanduser E r) c)).
               \<not> has_valid_extension E p exts"
  proof -
    have "concat (map (labelled_under E ?f (expanduser E r) (index_classes cs))
                      (Mapping.ordered_keys (index_classes cs))) = []"
      using that unfolding make_dataset_empty_iff by blast
    then show ?thesis
      by (simp add: DatasetFolder_init_eq fc md msg flip: assms(1))
  qed
  show "\<exists>ds. DatasetFolder_init E r l x t v = Inr ds \<and> samples ds \<noteq> []"
    if "\<exists>c \<in> set cs. \<exists>p \<in> set (walk_paths E (join (expanduser E r) c)).
               has_valid_extension E p exts"
  proof -
    have "concat (map (labelled_under E ?f (expanduser E r) (index_classes cs))
                      (Mapping.ordered_keys (index_classes cs))) \<noteq> []"
      using that unfolding make_dataset_empty_iff by blast
    then show ?thesis
      by (simp add: DatasetFolder_init_eq fc md flip: assms(1))
  qed
qed


theorem found_0_files_iff_witness:
  "ImageFolder_init example_env ''/t'' None None None None
     = Inl (RuntimeError (''Found 0 files in subfolders of: /t'' @ [CHR 0x0A] @
         ''Supported extensions are: .jpg,.jpeg,.png,.ppm,.bmp,.pgm,.tif,.tiff,.webp''))
   \<and> DatasetFolder_init example_env ''/t'' None None None None
     = Inl (RuntimeError (''Found 0 files in subfolders of: /t'' @ [CHR 0x0A] @
         ''Supported extensions are: .jpg,.jpeg,.png,.ppm,.bmp,.pgm,.tif,.tiff,.webp''))
   \<and> (\<exists>d. ImageFolder_init example_env ''/d'' None None None None = Inr d \<and> img_samples d \<noteq> [])
   \<and> (\<exists>ds. DatasetFolder_init example_env ''/d'' None None None None = Inr ds \<and> samples ds \<noteq> [])
   \<and> DatasetFolder_init example_env ''/nowhere'' None None None None = Inl FileNotFoundError"
proof -
  let ?m = "\<lambda>r. ''Found 0 files in subfolders of: '' @ r @ [CHR 0x0A] @
               ''Supported extensions are: '' @ str_join '','' IMG_EXTENSIONS"
  have e: "IMG_EXTENSIONS = (case None of None \<Rightarrow> IMG_EXTENSIONS | Some y \<Rightarrow> y)"
    by simp
  note t = found_0_files_iff [where x = None and E = example_env and l = None and t = None
      and v = None, OF e refl, of "''/t''"]
  note d = found_0_files_iff [where x = None and E = example_env and l = None and t = None
      and v = None, OF e refl, of "''/d''"]
  have m: "?m ''/t'' = ''Found 0 files in subfolders of: /t'' @ [CHR 0x0A] @
         ''Supported extensions are: .jpg,.jpeg,.png,.ppm,.bmp,.pgm,.tif,.tiff,.webp''"
    by (simp add: IMG_EXTENSIONS_def)
  have wt: "walk_paths example_env (expanduser example_env ''/t'') = [''/t/docs/readme.txt'']"
    by code_simp
  have wc: "walk_paths example_env (join (expanduser example_env ''/t'') ''docs'')
              = [''/t/docs/readme.txt'']"
    by code_simp
  have nv: "\<not> has_valid_extension example_env ''/t/docs/readme.txt'' IMG_EXTENSIONS"
    by code_simp
  have ft: "find_classes example_env ''/t'' = Inr ([''docs''], index_classes [''docs''])"
    by code_simp
  have a: "ImageFolder_init example_env ''/t'' None None None None = Inl (RuntimeError (?m ''/t''))"
    using t wt nv by simp
  have b: "DatasetFolder_init example_env ''/t'' None None None None
             = Inl (RuntimeError (?m ''/t''))"
  proof -
    have "\<forall>c \<in> set [''docs'']. \<forall>p \<in> set (walk_paths example_env (join (expanduser example_env ''/t'') c)).
               \<not> has_valid_extension example_env p IMG_EXTENSIONS"
      using wc nv by simp
    with t ft show ?thesis
      by blast
  qed
  have wd: "''/d/x.jpg'' \<in> set (walk_paths example_env (expanduser example_env ''/d''))"
    by code_simp
  have wa: "''/d/class_a/A.PNG''
              \<in> set (walk_paths example_env (join (expanduser example_env ''/d'') ''class_a''))"
    by code_simp
  have v1: "has_valid_extension example_env ''/d/x.jpg'' IMG_EXTENSIONS"
    by code_simp
  have v2: "has_valid_extension example_env ''/d/class_a/A.PNG'' IMG_EXTENSIONS"
    by code_simp
  have c: "\<exists>i. ImageFolder_init example_env ''/d'' None None None None = Inr i \<and> img_samples i \<noteq> []"
    using d wd v1 by blast
  have "''class_a'' \<in> set [''class_a'', ''class_b'']"
    by simp
  then have f: "\<exists>ds. DatasetFolder_init example_env ''/d'' None None None None = Inr ds
                  \<and> samples ds \<noteq> []"
    using d example_find_classes wa v2 by blast
  note n = found_0_files_iff [where x = None and E = example_env and l = None and t = None
      and v = None, OF e refl, of "''/nowhere''"]
  have "lookup example_env ''/nowhere'' = None"
    by (simp add: example_env_def example_fs_def)
  with n have g: "DatasetFolder_init example_env ''/nowhere'' None None None None
                    = Inl FileNotFoundError"
    by blast
  show ?thesis
    using a b c f g unfolding m by blast
qed

subsection \<open>The order of the collected files\<close>























end
